theory Spec2Isabelle
  imports Complex_Main
begin

section \<open>Strings and the regular expressions of the runbook\<close>

text \<open>
  The runbook is a PowerShell script. Its strings are .NET strings; here a string is a
  \<^typ>\<open>char list\<close> whose characters are the code units 0..255. \<open>Length\<close> is a signed
  integer, as in .NET, because the parser subtracts from it.
\<close>

definition Length :: "string \<Rightarrow> int" where
  "Length s = int (length s)"

text \<open>
  \<open>String.Substring(startIndex, length)\<close> raises ArgumentOutOfRangeException when the
  start or the length is negative or the span leaves the string; the exception is the
  value \<open>None\<close>.
\<close>

definition Substring :: "string \<Rightarrow> int \<Rightarrow> int \<Rightarrow> string option" where
  "Substring s startIndex len =
     (if startIndex < 0 \<or> len < 0 \<or> Length s < startIndex + len then None
      else Some (take (nat len) (drop (nat startIndex) s)))"

text \<open>
  White space as \<open>Char.IsWhiteSpace\<close> and the regex class \<open>\s\<close> see it in this range of
  characters: tab, line feed, vertical tab, form feed, carriage return, space, NEL and
  the no-break space.
\<close>

definition is_white :: "char \<Rightarrow> bool" where
  "is_white c = (c \<in> set [CHR 0x09, CHR 0x0A, CHR 0x0B, CHR 0x0C, CHR 0x0D, CHR 0x20, CHR 0x85, CHR 0xA0])"

definition Trim :: "string \<Rightarrow> string" where
  "Trim s = rev (dropWhile is_white (rev (dropWhile is_white s)))"

definition IsNullOrWhiteSpace :: "string \<Rightarrow> bool" where
  "IsNullOrWhiteSpace s = list_all is_white s"

text \<open>
  The character classes of the three patterns. PowerShell's \<open>-match\<close> and \<open>-notmatch\<close>
  ignore case, so \<open>[A-Z]\<close> accepts the small letters too (letters are compared as in the
  invariant culture). The dot matches every character but the line feed.
\<close>

definition is_digit :: "char \<Rightarrow> bool" where
  "is_digit c = (c \<in> set ''0123456789'')"

definition is_letter :: "char \<Rightarrow> bool" where
  "is_letter c = (c \<in> set ''ABCDEFGHIJKLMNOPQRSTUVWXYZabcdefghijklmnopqrstuvwxyz'')"

definition is_dot :: "char \<Rightarrow> bool" where
  "is_dot c = (c \<noteq> CHR 0x0A)"

definition is_dash :: "char \<Rightarrow> bool" where
  "is_dash c = (c = CHR ''-'')"

text \<open>
  A pattern of the script is a sequence of items: a class repeated exactly \<open>n\<close> times
  (\<open>[0-9]{5}\<close>, a literal is \<open>{1}\<close>) or one or more times (\<open>\s+\<close>, \<open>.+\<close>). A string matches
  a sequence when it splits into pieces that match the items in order; a backtracking
  matcher finds such a split whenever there is one.
\<close>

datatype item = Exactly nat "char \<Rightarrow> bool" | OneOrMore "char \<Rightarrow> bool"

fun matches_items :: "item list \<Rightarrow> string \<Rightarrow> bool" where
  "matches_items [] s = (s = [])"
| "matches_items (Exactly n P # its) s =
     (n \<le> length s \<and> list_all P (take n s) \<and> matches_items its (drop n s))"
| "matches_items (OneOrMore P # its) s =
     list_ex (\<lambda>k. list_all P (take k s) \<and> matches_items its (drop k s)) [1..<Suc (length s)]"

text \<open>
  The patterns are anchored with \<open>^\<close> and \<open>$\<close>. Without the multiline option \<open>$\<close> matches
  at the end of the string and also before a line feed that ends the string.
\<close>

definition anchored_match :: "item list \<Rightarrow> string \<Rightarrow> bool" where
  "anchored_match its s =
     (matches_items its s \<or> (s \<noteq> [] \<and> last s = CHR 0x0A \<and> matches_items its (butlast s)))"

text \<open>\<open>^[0-9]{5}\s+.+\s+-\s+[A-Z]{3}$\<close>, \<open>^[0-9]{5}$\<close> and \<open>^[A-Z]{3}$\<close>.\<close>

definition department_pattern :: "item list" where
  "department_pattern =
     [Exactly 5 is_digit, OneOrMore is_white, OneOrMore is_dot, OneOrMore is_white,
      Exactly 1 is_dash, OneOrMore is_white, Exactly 3 is_letter]"

definition number_pattern :: "item list" where
  "number_pattern = [Exactly 5 is_digit]"

definition country_pattern :: "item list" where
  "country_pattern = [Exactly 3 is_letter]"

section \<open>Format validator and department parser\<close>

text \<open>
  \<open>Test-DepartmentFormat\<close> returns a table \<open>{IsValid; Error}\<close>; the two error texts are
  "Department name too short (minimum 13 characters required)" and
  "Invalid format. Expected: '12345 Department Name - USA'".
\<close>

datatype format_error = TooShort | InvalidFormat

definition Test_DepartmentFormat :: "string \<Rightarrow> format_error + unit" where
  "Test_DepartmentFormat DepartmentName =
     (if Length DepartmentName < 13 then Inl TooShort
      else if \<not> anchored_match department_pattern DepartmentName then Inl InvalidFormat
      else Inr ())"

text \<open>
  \<open>Get-DepartmentComponents\<close> runs in a \<open>try\<close> whose \<open>catch\<close> turns every exception into
  the failure table. The four \<open>throw\<close> statements and the exception of \<open>Substring\<close> are
  the five errors:
  "Invalid department number: must be exactly 5 digits",
  "Invalid country code: must be exactly 3 uppercase letters",
  "Empty department name detected",
  "Department name is empty after parsing".
\<close>

datatype parse_error =
    ArgumentOutOfRange
  | InvalidDepartmentNumber
  | InvalidCountryCode
  | EmptyDepartmentName
  | EmptyAfterParsing

record components =
  Number :: string
  Name :: string
  CountryCode :: string

definition Get_DepartmentComponents :: "string \<Rightarrow> parse_error + components" where
  "Get_DepartmentComponents DepartmentName =
     (case Substring DepartmentName 0 5 of
        None \<Rightarrow> Inl ArgumentOutOfRange
      | Some deptNum \<Rightarrow>
          if \<not> anchored_match number_pattern deptNum then Inl InvalidDepartmentNumber
          else
            (case Substring DepartmentName (Length DepartmentName - 3) 3 of
               None \<Rightarrow> Inl ArgumentOutOfRange
             | Some countryCode \<Rightarrow>
                 if \<not> anchored_match country_pattern countryCode then Inl InvalidCountryCode
                 else
                   (let startPos = 6;
                        endPos = Length DepartmentName - 7;
                        nameLength = endPos - startPos
                    in if nameLength \<le> 0 then Inl EmptyDepartmentName
                       else
                         (case Substring DepartmentName startPos nameLength of
                            None \<Rightarrow> Inl ArgumentOutOfRange
                          | Some piece \<Rightarrow>
                              (let deptName = Trim piece
                               in if IsNullOrWhiteSpace deptName then Inl EmptyAfterParsing
                                  else Inr \<lparr>Number = deptNum, Name = deptName,
                                            CountryCode = countryCode\<rparr>)))))"

text \<open>
  The group name and the display name, as the main loop builds them from the parsed
  fields: \<open>$components.Number + $components.CountryCode\<close> and
  \<open>$components.Name + ' - ' + $components.CountryCode\<close>.
\<close>

definition groupName_of :: "components \<Rightarrow> string" where
  "groupName_of c = Number c @ CountryCode c"

definition displayName_of :: "components \<Rightarrow> string" where
  "displayName_of c = Name c @ '' - '' @ CountryCode c"

text \<open>\<open>New-RecipientFilter\<close>: the membership filter, a string built from the two fields.\<close>

definition New_RecipientFilter :: "string \<Rightarrow> string \<Rightarrow> string" where
  "New_RecipientFilter DepartmentNumber CountryCode' =
     ''((RecipientTypeDetails -eq 'UserMailbox' -or RecipientTypeDetails -eq 'MailUser') '' @
     ''-and Department -like '' @ [CHR 0x27] @ DepartmentNumber @ ''*' '' @
     ''-and Department -like '*'' @ CountryCode' @ [CHR 0x27] @ '' '' @
     ''-and Name -notlike 'SystemMailbox*' '' @
     ''-and Name -notlike 'CAS_*' '' @
     ''-and Name -notlike 'HealthMailbox*' '' @
     ''-and Name -notlike 'DiscoverySearchMailbox*' '' @
     ''-and RecipientTypeDetails -ne 'SharedMailbox' '' @
     ''-and RecipientTypeDetails -ne 'RoomMailbox' '' @
     ''-and RecipientTypeDetails -ne 'EquipmentMailbox' '' @
     ''-and RecipientTypeDetails -ne 'PublicFolder' '' @
     ''-and RecipientTypeDetails -ne 'ArbitrationMailbox')''"

section \<open>Remote operations and the retry executor\<close>

text \<open>
  The four Exchange cmdlets the main loop calls, with the arguments it passes:
  \<open>Get-Recipient -Identity\<close>, \<open>Get-DynamicDistributionGroup -Identity\<close>,
  \<open>Set-DynamicDistributionGroup -Identity -DisplayName -RecipientFilter\<close> and
  \<open>New-DynamicDistributionGroup -Name -Alias -DisplayName -RecipientFilter
  -IncludedRecipients\<close>. A call returns an object or nothing (\<open>$null\<close>), or throws.
\<close>

record recipient =
  RecipientTypeDetails :: string

datatype cmdlet =
    Get_Recipient string
  | Get_DynamicDistributionGroup string
  | Set_DynamicDistributionGroup string string string
  | New_DynamicDistributionGroup string string string string string

datatype outcome = Returns "recipient option" | Throws string

text \<open>
  What the script does to the outside is kept as a trace: every cmdlet invocation and
  every \<open>Start-Sleep\<close> with its seconds. The directory service is any function from the
  trace so far and the call to the outcome, so that its answers may depend on all that
  has happened. The progress lines of \<open>Write-TimestampedOutput\<close> are not kept.
\<close>

datatype event = Invoked cmdlet | Slept int

type_synonym server = "event list \<Rightarrow> cmdlet \<Rightarrow> outcome"

type_synonym operation = "event list \<Rightarrow> outcome \<times> event list"

definition invoke_cmdlet :: "server \<Rightarrow> cmdlet \<Rightarrow> operation" where
  "invoke_cmdlet srv c w = (srv w c, w @ [Invoked c])"

text \<open>
  \<open>Invoke-ExchangeOperation\<close> returns \<open>{Success = $true; Result; Error = $null}\<close> or
  \<open>{Success = $false; Result = $null; Error}\<close>. When the \<open>while\<close> loop ends without a
  \<open>return\<close> the function returns nothing: the value \<open>None\<close>. The counter is incremented
  before the sleep is computed from it.

  In PowerShell the line that \<open>Write-TimestampedOutput\<close> writes after a failed attempt is
  also part of what the function returns, in front of the record. The main loop reads
  only the members \<open>.Success\<close>, \<open>.Result\<close> and \<open>.Error\<close>, which the lines do not have and
  which are therefore those of the record; the model returns the record alone.
\<close>

datatype operation_result = Succeeded "recipient option" | Failed string

function retry_loop :: "operation \<Rightarrow> int \<Rightarrow> int \<Rightarrow> event list \<Rightarrow> operation_result option \<times> event list" where
  "retry_loop Operation MaxRetries attempt w =
     (if attempt \<le> MaxRetries then
        (case Operation w of
           (Returns result, w') \<Rightarrow> (Some (Succeeded result), w')
         | (Throws msg, w') \<Rightarrow>
             if attempt = MaxRetries then (Some (Failed msg), w')
             else
               (let attempt' = attempt + 1
                in retry_loop Operation MaxRetries attempt' (w' @ [Slept (2 * attempt')])))
      else (None, w))"
  by pat_completeness auto
termination
  by (relation "measure (\<lambda>(Operation, MaxRetries, attempt, w). nat (MaxRetries + 1 - attempt))") auto

definition Invoke_ExchangeOperation :: "operation \<Rightarrow> string \<Rightarrow> int \<Rightarrow> event list \<Rightarrow> operation_result option \<times> event list" where
  "Invoke_ExchangeOperation Operation OperationName MaxRetries w = retry_loop Operation MaxRetries 1 w"

text \<open>
  The members \<open>.Success\<close>, \<open>.Result\<close> and \<open>.Error\<close> as the main loop reads them; a member
  of \<open>$null\<close> is \<open>$null\<close>, which counts as false.
\<close>

fun Success_of :: "operation_result option \<Rightarrow> bool" where
  "Success_of (Some (Succeeded r)) = True"
| "Success_of (Some (Failed m)) = False"
| "Success_of None = False"

fun Result_of :: "operation_result option \<Rightarrow> recipient option" where
  "Result_of (Some (Succeeded r)) = r"
| "Result_of (Some (Failed m)) = None"
| "Result_of None = None"

fun Error_of :: "operation_result option \<Rightarrow> string option" where
  "Error_of (Some (Succeeded r)) = None"
| "Error_of (Some (Failed m)) = Some m"
| "Error_of None = None"

section \<open>The reconciliation loop\<close>

text \<open>
  The counters of \<open>$stats\<close> and the entries of \<open>$processedDepartments\<close>. An entry is a
  table with \<open>Department\<close> and \<open>Status\<close> and, by status, \<open>Error\<close>, \<open>GroupName\<close>,
  \<open>DisplayName\<close> or \<open>Reason\<close>; a key that the table lacks is \<open>None\<close>. The status is a
  string, as in the script.
\<close>

record stats =
  Created :: nat
  Updated :: nat
  Skipped :: nat
  ValidationErrors :: nat
  ProcessingErrors :: nat
  TotalProcessed :: nat

datatype error_info =
    FormatError format_error
  | ParseError parse_error
  | OperationError "string option"

record entry =
  Department :: string
  Status :: string
  Error :: "error_info option"
  GroupName :: "string option"
  DisplayName :: "string option"
  Reason :: "string option"

record run =
  stats :: stats
  processedDepartments :: "entry list"
  world :: "event list"

definition initial_run :: run where
  "initial_run =
     \<lparr>stats = \<lparr>Created = 0, Updated = 0, Skipped = 0, ValidationErrors = 0,
               ProcessingErrors = 0, TotalProcessed = 0\<rparr>,
      processedDepartments = [], world = []\<rparr>"

definition add_entry :: "entry \<Rightarrow> run \<Rightarrow> run" where
  "add_entry e st = st\<lparr>processedDepartments := processedDepartments st @ [e]\<rparr>"

text \<open>
  The body of the \<open>try\<close> block of the loop: the two lookups, whose \<open>.Success\<close> is not
  read, then update, skip or create. Every cmdlet runs inside \<open>Invoke-ExchangeOperation\<close>,
  which catches what the cmdlet throws, so no statement of the block reaches the outer
  \<open>catch\<close> and the status "UnexpectedError" is never written here.
\<close>

definition reconcile :: "int \<Rightarrow> server \<Rightarrow> run \<Rightarrow> string \<Rightarrow> string \<Rightarrow> string \<Rightarrow> string \<Rightarrow> run" where
  "reconcile MaxRetries srv st deptname groupName displayName recipientFilter =
     (let (existingRecipientResult, w1) =
            Invoke_ExchangeOperation (invoke_cmdlet srv (Get_Recipient groupName))
              ''Check Existing Recipient'' 2 (world st);
          existingRecipient = Result_of existingRecipientResult
      in case existingRecipient of
           Some found \<Rightarrow>
             (let (existingDDGResult, w2) =
                    Invoke_ExchangeOperation (invoke_cmdlet srv (Get_DynamicDistributionGroup groupName))
                      ''Check Existing DDG'' 2 w1;
                  existingDDG = Result_of existingDDGResult
              in case existingDDG of
                   Some ddg \<Rightarrow>
                     (let (updateResult, w3) =
                            Invoke_ExchangeOperation
                              (invoke_cmdlet srv (Set_DynamicDistributionGroup groupName displayName recipientFilter))
                              ''Update DDG'' MaxRetries w2
                      in if Success_of updateResult then
                           add_entry \<lparr>Department = deptname, Status = ''Updated'', Error = None,
                                      GroupName = Some groupName, DisplayName = Some displayName,
                                      Reason = None\<rparr>
                             (st\<lparr>stats := (stats st)\<lparr>Updated := Updated (stats st) + 1\<rparr>, world := w3\<rparr>)
                         else
                           add_entry \<lparr>Department = deptname, Status = ''UpdateError'',
                                      Error = Some (OperationError (Error_of updateResult)),
                                      GroupName = None, DisplayName = None, Reason = None\<rparr>
                             (st\<lparr>stats := (stats st)\<lparr>ProcessingErrors := ProcessingErrors (stats st) + 1\<rparr>,
                                 world := w3\<rparr>))
                 | None \<Rightarrow>
                     add_entry \<lparr>Department = deptname, Status = ''Skipped'', Error = None,
                                GroupName = None, DisplayName = None,
                                Reason = Some (''Exists as '' @ RecipientTypeDetails found)\<rparr>
                       (st\<lparr>stats := (stats st)\<lparr>Skipped := Skipped (stats st) + 1\<rparr>, world := w2\<rparr>))
         | None \<Rightarrow>
             (let (createResult, w2) =
                    Invoke_ExchangeOperation
                      (invoke_cmdlet srv
                         (New_DynamicDistributionGroup groupName groupName displayName recipientFilter
                            ''MailboxUsers, MailUsers''))
                      ''Create DDG'' MaxRetries w1
              in if Success_of createResult then
                   add_entry \<lparr>Department = deptname, Status = ''Created'', Error = None,
                              GroupName = Some groupName, DisplayName = Some displayName,
                              Reason = None\<rparr>
                     (st\<lparr>stats := (stats st)\<lparr>Created := Created (stats st) + 1\<rparr>, world := w2\<rparr>)
                 else
                   add_entry \<lparr>Department = deptname, Status = ''CreateError'',
                              Error = Some (OperationError (Error_of createResult)),
                              GroupName = None, DisplayName = None, Reason = None\<rparr>
                     (st\<lparr>stats := (stats st)\<lparr>ProcessingErrors := ProcessingErrors (stats st) + 1\<rparr>,
                         world := w2\<rparr>)))"

text \<open>
  One pass of the \<open>foreach\<close> body. \<open>TotalProcessed\<close> is incremented first; a format error
  and a parsing error both increment \<open>ValidationErrors\<close>; under \<open>-WhatIf\<close> the pass ends
  with \<open>continue\<close> right after the target names are built.
\<close>

definition process_department :: "bool \<Rightarrow> int \<Rightarrow> server \<Rightarrow> run \<Rightarrow> string \<Rightarrow> run" where
  "process_department WhatIf MaxRetries srv st0 deptname =
     (let st = st0\<lparr>stats := (stats st0)\<lparr>TotalProcessed := TotalProcessed (stats st0) + 1\<rparr>\<rparr>
      in case Test_DepartmentFormat deptname of
           Inl formatError \<Rightarrow>
             add_entry \<lparr>Department = deptname, Status = ''ValidationError'',
                        Error = Some (FormatError formatError),
                        GroupName = None, DisplayName = None, Reason = None\<rparr>
               (st\<lparr>stats := (stats st)\<lparr>ValidationErrors := ValidationErrors (stats st) + 1\<rparr>\<rparr>)
         | Inr valid \<Rightarrow>
             (case Get_DepartmentComponents deptname of
                Inl parseError \<Rightarrow>
                  add_entry \<lparr>Department = deptname, Status = ''ParsingError'',
                             Error = Some (ParseError parseError),
                             GroupName = None, DisplayName = None, Reason = None\<rparr>
                    (st\<lparr>stats := (stats st)\<lparr>ValidationErrors := ValidationErrors (stats st) + 1\<rparr>\<rparr>)
              | Inr components \<Rightarrow>
                  (let groupName = groupName_of components;
                       displayName = displayName_of components;
                       recipientFilter = New_RecipientFilter (Number components) (CountryCode components)
                   in if WhatIf then st
                      else reconcile MaxRetries srv st deptname groupName displayName recipientFilter)))"

definition process_departments :: "bool \<Rightarrow> int \<Rightarrow> server \<Rightarrow> run \<Rightarrow> string list \<Rightarrow> run" where
  "process_departments WhatIf MaxRetries srv st depts =
     foldl (process_department WhatIf MaxRetries srv) st depts"

section \<open>The summary report\<close>





section \<open>Directory services used in the examples\<close>

text \<open>A service whose every call throws.\<close>

definition failing_server :: server where
  "failing_server w c = Throws ''The operation timed out''"

text \<open>A directory with no object: the lookups return nothing, a create returns the new group.\<close>

definition empty_directory :: server where
  "empty_directory w c =
     (case c of
        Get_Recipient g \<Rightarrow> Returns None
      | Get_DynamicDistributionGroup g \<Rightarrow> Returns None
      | Set_DynamicDistributionGroup g d f \<Rightarrow> Throws ''The object could not be found''
      | New_DynamicDistributionGroup n a d f i \<Rightarrow>
          Returns (Some \<lparr>RecipientTypeDetails = ''DynamicDistributionGroup''\<rparr>))"

text \<open>The same directory while \<open>Get-Recipient\<close> is out of order.\<close>

definition lookup_down_directory :: server where
  "lookup_down_directory w c =
     (case c of
        Get_Recipient g \<Rightarrow> Throws ''The operation timed out''
      | _ \<Rightarrow> empty_directory w c)"

text \<open>A directory where every name is taken by a user mailbox.\<close>

definition mailbox_directory :: server where
  "mailbox_directory w c =
     (case c of
        Get_Recipient g \<Rightarrow> Returns (Some \<lparr>RecipientTypeDetails = ''UserMailbox''\<rparr>)
      | Get_DynamicDistributionGroup g \<Rightarrow> Returns None
      | Set_DynamicDistributionGroup g d f \<Rightarrow> Throws ''The object could not be found''
      | New_DynamicDistributionGroup n a d f i \<Rightarrow> Throws ''The name is already in use'')"


section \<open>Notions used to state the properties\<close>

text \<open>The least length of a string that a sequence of items can match.\<close>

fun min_length :: "item list \<Rightarrow> nat" where
  "min_length [] = 0"
| "min_length (Exactly n P # its) = n + min_length its"
| "min_length (OneOrMore P # its) = 1 + min_length its"

text \<open>
  The events that \<open>n\<close> attempts of the cmdlet \<open>c\<close> leave in the trace when each of them
  throws and another attempt follows: the invocation, then the sleep that the loop makes
  after the attempt. Attempt \<open>j\<close> (counted from 1) is therefore made in the trace of the
  start followed by \<open>failed_attempts c (j - 1)\<close>, and \<open>attempt_outcome\<close> is what the
  service answers there.
\<close>

fun failed_attempts :: "cmdlet \<Rightarrow> nat \<Rightarrow> event list" where
  "failed_attempts c 0 = []"
| "failed_attempts c (Suc n) = failed_attempts c n @ [Invoked c, Slept (2 * (int (Suc n) + 1))]"

definition attempt_outcome :: "server \<Rightarrow> event list \<Rightarrow> cmdlet \<Rightarrow> nat \<Rightarrow> outcome" where
  "attempt_outcome srv w c j = srv (w @ failed_attempts c (j - 1)) c"

fun is_throw :: "outcome \<Rightarrow> bool" where
  "is_throw (Throws m) = True"
| "is_throw (Returns r) = False"

text \<open>
  For an arbitrary operation: the trace in which attempt \<open>n + 1\<close> starts when the
  attempts 1 to \<open>n\<close> have thrown.
\<close>

fun world_at :: "operation \<Rightarrow> event list \<Rightarrow> nat \<Rightarrow> event list" where
  "world_at Operation w 0 = w"
| "world_at Operation w (Suc n) =
     snd (Operation (world_at Operation w n)) @ [Slept (2 * (int (Suc n) + 1))]"



fun is_mutation :: "event \<Rightarrow> bool" where
  "is_mutation (Invoked (Set_DynamicDistributionGroup g d f)) = True"
| "is_mutation (Invoked (New_DynamicDistributionGroup n a d f i)) = True"
| "is_mutation (Invoked (Get_Recipient g)) = False"
| "is_mutation (Invoked (Get_DynamicDistributionGroup g)) = False"
| "is_mutation (Slept n) = False"

text \<open>The sum of the five outcome counters, and "exactly one of them went up by one".\<close>

definition bucket_sum :: "stats \<Rightarrow> nat" where
  "bucket_sum s = Created s + Updated s + Skipped s + ValidationErrors s + ProcessingErrors s"

definition one_bucket_incremented :: "stats \<Rightarrow> stats \<Rightarrow> bool" where
  "one_bucket_incremented s s' =
     ((Created s' = Created s + 1 \<and> Updated s' = Updated s \<and> Skipped s' = Skipped s \<and>
       ValidationErrors s' = ValidationErrors s \<and> ProcessingErrors s' = ProcessingErrors s) \<or>
      (Created s' = Created s \<and> Updated s' = Updated s + 1 \<and> Skipped s' = Skipped s \<and>
       ValidationErrors s' = ValidationErrors s \<and> ProcessingErrors s' = ProcessingErrors s) \<or>
      (Created s' = Created s \<and> Updated s' = Updated s \<and> Skipped s' = Skipped s + 1 \<and>
       ValidationErrors s' = ValidationErrors s \<and> ProcessingErrors s' = ProcessingErrors s) \<or>
      (Created s' = Created s \<and> Updated s' = Updated s \<and> Skipped s' = Skipped s \<and>
       ValidationErrors s' = ValidationErrors s + 1 \<and> ProcessingErrors s' = ProcessingErrors s) \<or>
      (Created s' = Created s \<and> Updated s' = Updated s \<and> Skipped s' = Skipped s \<and>
       ValidationErrors s' = ValidationErrors s \<and> ProcessingErrors s' = ProcessingErrors s + 1))"



text \<open>The first statement of the loop body: \<open>$stats.TotalProcessed++\<close>.\<close>

definition count_department :: "run \<Rightarrow> run" where
  "count_department st = st\<lparr>stats := (stats st)\<lparr>TotalProcessed := TotalProcessed (stats st) + 1\<rparr>\<rparr>"

section \<open>Properties of the validator and the parser\<close>

lemmas parser_defs =
  Get_DepartmentComponents_def Test_DepartmentFormat_def Substring_def Length_def
  anchored_match_def department_pattern_def number_pattern_def country_pattern_def
  is_digit_def is_letter_def is_white_def is_dot_def is_dash_def Trim_def
  IsNullOrWhiteSpace_def groupName_of_def displayName_of_def

lemma matches_items_min_length: "matches_items its s \<Longrightarrow> min_length its \<le> length s"
proof (induction its arbitrary: s)
  case Nil
  then show ?case by simp
next
  case (Cons it its)
  show ?case
  proof (cases it)
    case (Exactly n P)
    with Cons.prems have "n \<le> length s" and "matches_items its (drop n s)" by simp_all
    with Cons.IH [of "drop n s"] Exactly show ?thesis by simp
  next
    case (OneOrMore P)
    with Cons.prems obtain k where k: "1 \<le> k" "k \<le> length s" "matches_items its (drop k s)"
      by (auto simp: list_ex_iff)
    with Cons.IH [of "drop k s"] OneOrMore show ?thesis by simp
  qed
qed

lemma matches_items_suffix:
  "matches_items (its @ [Exactly n P]) s \<Longrightarrow> n \<le> length s \<and> list_all P (drop (length s - n) s)"
proof (induction its arbitrary: s)
  case Nil
  then have eq: "n = length s" by simp
  with Nil show ?case by simp
next
  case (Cons it its)
  show ?case
  proof (cases it)
    case (Exactly m Q)
    with Cons.prems have m: "m \<le> length s" and rest: "matches_items (its @ [Exactly n P]) (drop m s)"
      by simp_all
    from Cons.IH [OF rest] have n: "n \<le> length s - m"
      and all: "list_all P (drop (length s - m - n) (drop m s))" by simp_all
    from m n have "length s - m - n + m = length s - n" by simp
    with all n show ?thesis by simp
  next
    case (OneOrMore Q)
    with Cons.prems have "\<exists>k. k \<le> length s \<and> matches_items (its @ [Exactly n P]) (drop k s)"
      by (auto simp: list_ex_iff intro: less_imp_le)
    then obtain k where k: "k \<le> length s"
      and rest: "matches_items (its @ [Exactly n P]) (drop k s)"
      by blast
    from Cons.IH [OF rest] have n: "n \<le> length s - k"
      and all: "list_all P (drop (length s - k - n) (drop k s))" by simp_all
    from k n have "length s - k - n + k = length s - n" by simp
    with all n show ?thesis by simp
  qed
qed

lemma department_pattern_parts:
  assumes "matches_items department_pattern s"
  shows "13 \<le> length s" and "list_all is_digit (take 5 s)"
    and "list_all is_letter (drop (length s - 3) s)"
proof -
  from matches_items_min_length [OF assms] show "13 \<le> length s"
    by (simp add: department_pattern_def)
  from assms show "list_all is_digit (take 5 s)"
    by (simp add: department_pattern_def)
  have "department_pattern =
      [Exactly 5 is_digit, OneOrMore is_white, OneOrMore is_dot, OneOrMore is_white,
       Exactly 1 is_dash, OneOrMore is_white] @ [Exactly 3 is_letter]"
    by (simp add: department_pattern_def)
  with assms matches_items_suffix show "list_all is_letter (drop (length s - 3) s)"
    by metis
qed

lemma valid_13_components:
  assumes len: "length s = 13" and valid: "Test_DepartmentFormat s = Inr ()"
  shows "Get_DepartmentComponents s = Inl EmptyDepartmentName"
proof -
  from valid have am: "anchored_match department_pattern s"
    by (simp add: Test_DepartmentFormat_def split: if_splits)
  have m: "matches_items department_pattern s"
  proof (rule ccontr)
    assume "\<not> matches_items department_pattern s"
    with am have "matches_items department_pattern (butlast s)"
      by (simp add: anchored_match_def)
    from department_pattern_parts(1) [OF this] len show False by simp
  qed
  from department_pattern_parts [OF m] len
  have dig: "list_all is_digit (take 5 s)" and letters: "list_all is_letter (drop 10 s)"
    by simp_all
  from len dig have num: "anchored_match number_pattern (take 5 s)"
    by (simp add: anchored_match_def number_pattern_def)
  from len letters have cc: "anchored_match country_pattern (drop 10 s)"
    by (simp add: anchored_match_def country_pattern_def)
  from len num cc show ?thesis
    by (simp add: Get_DepartmentComponents_def Substring_def Length_def)
qed

lemma parse_needs_14: "Get_DepartmentComponents s = Inr c \<Longrightarrow> 14 \<le> length s"
  by (auto simp: Get_DepartmentComponents_def Let_def Length_def split: option.splits if_splits)

lemma valid_Finance: "Test_DepartmentFormat ''12345 Finance - USA'' = Inr ()"
  by code_simp

lemma parse_Finance:
  "Get_DepartmentComponents ''12345 Finance - USA'' =
     Inr \<lparr>Number = ''12345'', Name = ''Financ'', CountryCode = ''USA''\<rparr>"
  by (simp add: parser_defs)

lemma valid_X: "Test_DepartmentFormat ''12345 X - ABC'' = Inr ()"
  by code_simp

text \<open>
  The parser on a string with single spaces, number, text, " - " and country code: the
  span it cuts out is the text without its last character.
\<close>

lemma parse_single_spaced:
  assumes "length num = 5" and "list_all is_digit num"
    and "length cc = 3" and "list_all is_letter cc"
  shows "Get_DepartmentComponents (num @ '' '' @ text @ '' - '' @ cc) =
     (if length text \<le> 1 then Inl EmptyDepartmentName
      else if IsNullOrWhiteSpace (Trim (butlast text)) then Inl EmptyAfterParsing
      else Inr \<lparr>Number = num, Name = Trim (butlast text), CountryCode = cc\<rparr>)"
proof -
  define p where "p = num @ '' '' @ text @ '' - ''"
  define q where "q = num @ '' ''"
  define r where "r = '' - '' @ cc"
  have s1: "num @ '' '' @ text @ '' - '' @ cc = p @ cc" by (simp add: p_def)
  have s2: "num @ '' '' @ text @ '' - '' @ cc = q @ text @ r" by (simp add: q_def r_def)
  have s3: "num @ '' '' @ text @ '' - '' @ cc = num @ ('' '' @ text @ r)" by (simp add: r_def)
  from assms have lp: "length p = length text + 9" by (simp add: p_def)
  from assms have lq: "length q = 6" by (simp add: q_def)
  from assms have lr: "length r = 6" by (simp add: r_def)
  from assms have num: "anchored_match number_pattern num"
    by (simp add: anchored_match_def number_pattern_def)
  from assms have cc: "anchored_match country_pattern cc"
    by (simp add: anchored_match_def country_pattern_def)
  from assms have first: "Substring (num @ ('' '' @ text @ r)) 0 5 = Some num"
    by (simp add: Substring_def Length_def)
  from assms lp have last: "Substring (p @ cc) (Length (p @ cc) - 3) 3 = Some cc"
    by (simp add: Substring_def Length_def)
  from lq lr have len: "Length (q @ text @ r) - 7 - 6 = int (length text) - 1"
    by (simp add: Length_def)
  have middle: "1 < length text \<Longrightarrow>
      Substring (q @ text @ r) 6 (int (length text) - 1) = Some (butlast text)"
    using lq lr by (auto simp: Substring_def Length_def butlast_conv_take nat_diff_distrib')
  have "Get_DepartmentComponents (num @ '' '' @ text @ '' - '' @ cc) =
     (if Length (q @ text @ r) - 7 - 6 \<le> 0 then Inl EmptyDepartmentName
      else case Substring (q @ text @ r) 6 (Length (q @ text @ r) - 7 - 6) of
             None \<Rightarrow> Inl ArgumentOutOfRange
           | Some piece \<Rightarrow>
               if IsNullOrWhiteSpace (Trim piece) then Inl EmptyAfterParsing
               else Inr \<lparr>Number = num, Name = Trim piece, CountryCode = cc\<rparr>)"
    unfolding Get_DepartmentComponents_def Let_def
    using num cc first [folded s3] last [folded s1] by (simp add: s2 [symmetric])
  with len middle show ?thesis by (auto simp: not_le)
qed

text \<open>
  C1. The scenario of the specification, "10023 Accounts Payable - USA", passes the
  validator, and the parser succeeds on it with the number "10023" and the country code
  "USA"; the group name is "10023USA". The name it returns is "Accounts Payabl": the
  span \<open>Length - 13\<close> is one character shorter than the text between "10023 " and
  " - USA", so the display name is "Accounts Payabl - USA" and not
  "Accounts Payable - USA".
\<close>

theorem parse_Accounts_Payable:
  "Test_DepartmentFormat ''10023 Accounts Payable - USA'' = Inr () \<and>
   Get_DepartmentComponents ''10023 Accounts Payable - USA'' =
     Inr \<lparr>Number = ''10023'', Name = ''Accounts Payabl'', CountryCode = ''USA''\<rparr> \<and>
   groupName_of \<lparr>Number = ''10023'', Name = ''Accounts Payabl'', CountryCode = ''USA''\<rparr> =
     ''10023USA'' \<and>
   displayName_of \<lparr>Number = ''10023'', Name = ''Accounts Payabl'', CountryCode = ''USA''\<rparr> =
     ''Accounts Payabl - USA'' \<and>
   displayName_of \<lparr>Number = ''10023'', Name = ''Accounts Payabl'', CountryCode = ''USA''\<rparr> \<noteq>
     ''Accounts Payable - USA''"
proof -
  have "Test_DepartmentFormat ''10023 Accounts Payable - USA'' = Inr ()"
    by code_simp
  moreover have "Get_DepartmentComponents ''10023 Accounts Payable - USA'' =
      Inr \<lparr>Number = ''10023'', Name = ''Accounts Payabl'', CountryCode = ''USA''\<rparr>"
    by (simp add: parser_defs)
  ultimately show ?thesis
    by (simp add: groupName_of_def displayName_of_def)
qed

text \<open>
  C9. A string of exactly 13 characters that passes the format validator is always
  rejected by the parser with "Empty department name detected", because the name span
  \<open>Length - 13\<close> is 0; and whenever the parser succeeds the string has at least 14
  characters.
\<close>

theorem minimum_length_never_parses:
  "(length s = 13 \<and> Test_DepartmentFormat s = Inr () \<longrightarrow>
      Get_DepartmentComponents s = Inl EmptyDepartmentName) \<and>
   (Get_DepartmentComponents s = Inr c \<longrightarrow> 14 \<le> length s)"
  using valid_13_components [of s] parse_needs_14 [of s c] by blast

theorem minimum_length_never_parses_witness:
  "length ''12345 X - ABC'' = 13 \<and>
   Test_DepartmentFormat ''12345 X - ABC'' = Inr () \<and>
   Get_DepartmentComponents ''12345 X - ABC'' = Inl EmptyDepartmentName \<and>
   Get_DepartmentComponents ''12345 Finance - USA'' =
     Inr \<lparr>Number = ''12345'', Name = ''Financ'', CountryCode = ''USA''\<rparr> \<and>
   14 \<le> length ''12345 Finance - USA''"
proof -
  have len: "length ''12345 X - ABC'' = 13" by simp
  from minimum_length_never_parses
         [of "''12345 X - ABC''" "\<lparr>Number = ''12345'', Name = ''Financ'', CountryCode = ''USA''\<rparr>"]
       len valid_X
  have a: "Get_DepartmentComponents ''12345 X - ABC'' = Inl EmptyDepartmentName"
    by blast
  from minimum_length_never_parses
         [of "''12345 Finance - USA''" "\<lparr>Number = ''12345'', Name = ''Financ'', CountryCode = ''USA''\<rparr>"]
       parse_Finance
  have b: "14 \<le> length ''12345 Finance - USA''"
    by blast
  from len valid_X a parse_Finance b show ?thesis by blast
qed

section \<open>Properties of the retry executor\<close>

declare retry_loop.simps [simp del]

lemma retry_loop_exhausted: "MaxRetries < attempt \<Longrightarrow> retry_loop Operation MaxRetries attempt w = (None, w)"
  by (subst retry_loop.simps) simp

lemma retry_loop_returns:
  "attempt \<le> MaxRetries \<Longrightarrow> Operation w = (Returns r, w') \<Longrightarrow>
   retry_loop Operation MaxRetries attempt w = (Some (Succeeded r), w')"
  by (subst retry_loop.simps) simp

lemma retry_loop_last_throws:
  "Operation w = (Throws m, w') \<Longrightarrow>
   retry_loop Operation MaxRetries MaxRetries w = (Some (Failed m), w')"
  by (subst retry_loop.simps) simp

lemma retry_loop_throws:
  "attempt < MaxRetries \<Longrightarrow> Operation w = (Throws m, w') \<Longrightarrow>
   retry_loop Operation MaxRetries attempt w =
     retry_loop Operation MaxRetries (attempt + 1) (w' @ [Slept (2 * (attempt + 1))])"
  by (subst retry_loop.simps) (simp add: Let_def)


lemma retry_loop_failed_attempts:
  assumes "int n < MaxRetries"
    and "\<forall>j<n. \<exists>m. srv (w @ failed_attempts c j) c = Throws m"
  shows "retry_loop (invoke_cmdlet srv c) MaxRetries 1 w =
         retry_loop (invoke_cmdlet srv c) MaxRetries (int n + 1) (w @ failed_attempts c n)"
  using assms
proof (induction n)
  case 0
  then show ?case by simp
next
  case (Suc n)
  from Suc.prems have lt: "int n + 1 < MaxRetries" by simp
  from Suc.prems obtain m where m: "srv (w @ failed_attempts c n) c = Throws m" by blast
  from Suc.prems have "retry_loop (invoke_cmdlet srv c) MaxRetries 1 w =
         retry_loop (invoke_cmdlet srv c) MaxRetries (int n + 1) (w @ failed_attempts c n)"
    by (intro Suc.IH) auto
  also from m have "invoke_cmdlet srv c (w @ failed_attempts c n) = (Throws m, w @ failed_attempts c n @ [Invoked c])"
    by (simp add: invoke_cmdlet_def)
  from retry_loop_throws [of "int n + 1" MaxRetries "invoke_cmdlet srv c" "w @ failed_attempts c n" m
         "w @ failed_attempts c n @ [Invoked c]", OF lt this]
  have "retry_loop (invoke_cmdlet srv c) MaxRetries (int n + 1) (w @ failed_attempts c n) =
        retry_loop (invoke_cmdlet srv c) MaxRetries (int (Suc n) + 1) (w @ failed_attempts c (Suc n))"
    by (simp add: algebra_simps)
  finally show ?case .
qed

text \<open>What a retried cmdlet adds to the trace: its own invocations and sleeps, and first an invocation.\<close>

lemma retry_loop_trace:
  "\<exists>ext. snd (retry_loop (invoke_cmdlet srv c) MaxRetries attempt w) = w @ ext \<and>
         (\<forall>e\<in>set ext. e = Invoked c \<or> (\<exists>n. e = Slept n)) \<and>
         (attempt \<le> MaxRetries \<longrightarrow> (\<exists>rest. ext = Invoked c # rest))"
proof (induction "invoke_cmdlet srv c" MaxRetries attempt w rule: retry_loop.induct)
  case (1 MaxRetries attempt w)
  show ?case
  proof (cases "attempt \<le> MaxRetries")
    case False
    then show ?thesis by (simp add: retry_loop_exhausted)
  next
    case le: True
    have op: "invoke_cmdlet srv c w = (srv w c, w @ [Invoked c])"
      by (simp add: invoke_cmdlet_def)
    show ?thesis
    proof (cases "srv w c")
      case (Returns r)
      with op le show ?thesis by (simp add: retry_loop_returns)
    next
      case (Throws m)
      show ?thesis
      proof (cases "attempt = MaxRetries")
        case True
        with op Throws show ?thesis by (simp add: retry_loop_last_throws)
      next
        case False
        with le have lt: "attempt < MaxRetries" by simp
        from "1.hyps" [OF le op [symmetric] Throws False]
        obtain ext where ext: "snd (retry_loop (invoke_cmdlet srv c) MaxRetries (attempt + 1)
              ((w @ [Invoked c]) @ [Slept (2 * (attempt + 1))])) =
              ((w @ [Invoked c]) @ [Slept (2 * (attempt + 1))]) @ ext"
          and only: "\<forall>e\<in>set ext. e = Invoked c \<or> (\<exists>n. e = Slept n)"
          by blast
        from op Throws lt ext have "snd (retry_loop (invoke_cmdlet srv c) MaxRetries attempt w) =
            w @ (Invoked c # Slept (2 * (attempt + 1)) # ext)"
          by (simp add: retry_loop_throws)
        moreover from only have "\<forall>e\<in>set (Invoked c # Slept (2 * (attempt + 1)) # ext).
            e = Invoked c \<or> (\<exists>n. e = Slept n)"
          by simp
        ultimately show ?thesis by blast
      qed
    qed
  qed
qed



lemma attempts_throw:
  assumes "\<forall>j. 1 \<le> j \<and> j \<le> n \<longrightarrow> is_throw (attempt_outcome srv w c j)"
  shows "\<forall>j<n. \<exists>m. srv (w @ failed_attempts c j) c = Throws m"
proof (intro allI impI)
  fix j assume "j < n"
  with assms have "is_throw (attempt_outcome srv w c (Suc j))" by simp
  then show "\<exists>m. srv (w @ failed_attempts c j) c = Throws m"
    by (cases "srv (w @ failed_attempts c j) c") (simp_all add: attempt_outcome_def)
qed





lemma retry_loop_world_at:
  assumes "int n < MaxRetries"
    and "\<forall>j<n. is_throw (fst (Operation (world_at Operation w j)))"
  shows "retry_loop Operation MaxRetries 1 w =
         retry_loop Operation MaxRetries (int n + 1) (world_at Operation w n)"
  using assms
proof (induction n)
  case 0
  then show ?case by simp
next
  case (Suc n)
  from Suc.prems have lt: "int n + 1 < MaxRetries" by simp
  from Suc.prems have "is_throw (fst (Operation (world_at Operation w n)))" by simp
  then obtain m where m: "Operation (world_at Operation w n) =
      (Throws m, snd (Operation (world_at Operation w n)))"
    by (cases "Operation (world_at Operation w n)"; cases "fst (Operation (world_at Operation w n))") simp_all
  from Suc.prems have "retry_loop Operation MaxRetries 1 w =
         retry_loop Operation MaxRetries (int n + 1) (world_at Operation w n)"
    by (intro Suc.IH) auto
  also from retry_loop_throws [of "int n + 1" MaxRetries Operation "world_at Operation w n" m
      "snd (Operation (world_at Operation w n))", OF lt m]
  have "retry_loop Operation MaxRetries (int n + 1) (world_at Operation w n) =
        retry_loop Operation MaxRetries (int (Suc n) + 1) (world_at Operation w (Suc n))"
    by (simp add: algebra_simps)
  finally show ?case .
qed

text \<open>
  The retry behaviour for an arbitrary operation: the result is decided by the first
  attempt that returns, or by the last attempt when all of them throw.
\<close>

lemma retry_any_operation:
  "(1 \<le> k \<and> int k \<le> MaxRetries \<and>
    (\<forall>j<k - 1. is_throw (fst (Operation (world_at Operation w j)))) \<and>
    fst (Operation (world_at Operation w (k - 1))) = Returns r \<longrightarrow>
      Invoke_ExchangeOperation Operation name MaxRetries w =
        (Some (Succeeded r), snd (Operation (world_at Operation w (k - 1))))) \<and>
   (1 \<le> MaxRetries \<and>
    (\<forall>j<nat MaxRetries - 1. is_throw (fst (Operation (world_at Operation w j)))) \<and>
    fst (Operation (world_at Operation w (nat MaxRetries - 1))) = Throws msg \<longrightarrow>
      Invoke_ExchangeOperation Operation name MaxRetries w =
        (Some (Failed msg), snd (Operation (world_at Operation w (nat MaxRetries - 1)))))"
proof (intro conjI impI)
  assume h: "1 \<le> k \<and> int k \<le> MaxRetries \<and>
    (\<forall>j<k - 1. is_throw (fst (Operation (world_at Operation w j)))) \<and>
    fst (Operation (world_at Operation w (k - 1))) = Returns r"
  then have lt: "int (k - 1) < MaxRetries" and at: "int (k - 1) + 1 \<le> MaxRetries" by simp_all
  from h have thr: "\<forall>j<k - 1. is_throw (fst (Operation (world_at Operation w j)))" by simp
  from h have op: "Operation (world_at Operation w (k - 1)) =
      (Returns r, snd (Operation (world_at Operation w (k - 1))))"
    by (cases "Operation (world_at Operation w (k - 1))") simp
  from retry_loop_returns [of "int (k - 1) + 1" MaxRetries Operation "world_at Operation w (k - 1)" r
      "snd (Operation (world_at Operation w (k - 1)))", OF at op]
    retry_loop_world_at [of "k - 1" MaxRetries Operation w, OF lt thr]
  show "Invoke_ExchangeOperation Operation name MaxRetries w =
        (Some (Succeeded r), snd (Operation (world_at Operation w (k - 1))))"
    by (simp add: Invoke_ExchangeOperation_def)
next
  assume h: "1 \<le> MaxRetries \<and>
    (\<forall>j<nat MaxRetries - 1. is_throw (fst (Operation (world_at Operation w j)))) \<and>
    fst (Operation (world_at Operation w (nat MaxRetries - 1))) = Throws msg"
  then have "1 \<le> MaxRetries" by simp
  then have lt: "int (nat MaxRetries - 1) < MaxRetries" and at: "int (nat MaxRetries - 1) + 1 = MaxRetries"
    by simp_all
  from h have thr: "\<forall>j<nat MaxRetries - 1. is_throw (fst (Operation (world_at Operation w j)))" by simp
  from h have op: "Operation (world_at Operation w (nat MaxRetries - 1)) =
      (Throws msg, snd (Operation (world_at Operation w (nat MaxRetries - 1))))"
    by (cases "Operation (world_at Operation w (nat MaxRetries - 1))") simp
  from retry_loop_last_throws [of Operation "world_at Operation w (nat MaxRetries - 1)" msg
      "snd (Operation (world_at Operation w (nat MaxRetries - 1)))" MaxRetries, OF op]
    retry_loop_world_at [of "nat MaxRetries - 1" MaxRetries Operation w, OF lt thr] at
  show "Invoke_ExchangeOperation Operation name MaxRetries w =
        (Some (Failed msg), snd (Operation (world_at Operation w (nat MaxRetries - 1))))"
    by (simp add: Invoke_ExchangeOperation_def)
qed


text \<open>
  C4, as amended. When attempt number \<open>n\<close> throws and attempts remain
  (\<open>n < MaxRetries\<close>), the executor sleeps for exactly \<open>2 * (n + 1)\<close> seconds between the
  invocation of attempt \<open>n\<close> and the invocation of attempt \<open>n + 1\<close>: 4, 6, 8, ... seconds
  after the attempts 1, 2, 3, ..., because \<open>$attempt\<close> is incremented before the sleep is
  computed.
\<close>

theorem retry_backoff:
  "1 \<le> n \<and> int n < MaxRetries \<and>
   (\<forall>j. 1 \<le> j \<and> j \<le> n \<longrightarrow> is_throw (attempt_outcome srv w c j)) \<longrightarrow>
   (\<exists>rest. snd (Invoke_ExchangeOperation (invoke_cmdlet srv c) name MaxRetries w) =
      w @ failed_attempts c (n - 1) @ [Invoked c, Slept (2 * (int n + 1)), Invoked c] @ rest)"
proof
  assume h: "1 \<le> n \<and> int n < MaxRetries \<and>
   (\<forall>j. 1 \<le> j \<and> j \<le> n \<longrightarrow> is_throw (attempt_outcome srv w c j))"
  then have lt: "int n < MaxRetries" and n: "1 \<le> n" by simp_all
  from h have "\<forall>j. 1 \<le> j \<and> j \<le> n \<longrightarrow> is_throw (attempt_outcome srv w c j)" by simp
  from attempts_throw [OF this]
  have thr: "\<forall>j<n. \<exists>m. srv (w @ failed_attempts c j) c = Throws m" .
  from lt have le: "int n + 1 \<le> MaxRetries" by simp
  from retry_loop_trace [of srv c MaxRetries "int n + 1" "w @ failed_attempts c n"] le
  obtain rest where "snd (retry_loop (invoke_cmdlet srv c) MaxRetries (int n + 1) (w @ failed_attempts c n)) =
      (w @ failed_attempts c n) @ Invoked c # rest"
    by blast
  with retry_loop_failed_attempts [where srv = srv and c = c and w = w, OF lt thr]
  have "snd (Invoke_ExchangeOperation (invoke_cmdlet srv c) name MaxRetries w) =
      w @ failed_attempts c n @ Invoked c # rest"
    by (simp add: Invoke_ExchangeOperation_def)
  moreover from n obtain n' where "n = Suc n'" by (cases n) simp_all
  ultimately have "snd (Invoke_ExchangeOperation (invoke_cmdlet srv c) name MaxRetries w) =
      w @ failed_attempts c (n - 1) @ [Invoked c, Slept (2 * (int n + 1)), Invoked c] @ rest"
    by simp
  then show "\<exists>rest. snd (Invoke_ExchangeOperation (invoke_cmdlet srv c) name MaxRetries w) =
      w @ failed_attempts c (n - 1) @ [Invoked c, Slept (2 * (int n + 1)), Invoked c] @ rest"
    by blast
qed





lemma failing_any: "attempt_outcome failing_server w c j = Throws ''The operation timed out''"
  by (simp add: attempt_outcome_def failing_server_def)


text \<open>
  With two attempts allowed and a service that always throws, the sleep after the first
  attempt is 4 seconds, not \<open>2 * 1\<close>.
\<close>

theorem backoff_is_not_twice_the_attempt:
  "snd (Invoke_ExchangeOperation (invoke_cmdlet failing_server (Get_Recipient ''12345USA''))
         ''Check Existing Recipient'' 2 []) =
     [Invoked (Get_Recipient ''12345USA''), Slept 4, Invoked (Get_Recipient ''12345USA'')] \<and>
   snd (Invoke_ExchangeOperation (invoke_cmdlet failing_server (Get_Recipient ''12345USA''))
         ''Check Existing Recipient'' 2 []) \<noteq>
     [Invoked (Get_Recipient ''12345USA''), Slept (2 * 1), Invoked (Get_Recipient ''12345USA'')]"
proof -
  have "snd (Invoke_ExchangeOperation (invoke_cmdlet failing_server (Get_Recipient ''12345USA''))
         ''Check Existing Recipient'' 2 []) =
     [Invoked (Get_Recipient ''12345USA''), Slept 4, Invoked (Get_Recipient ''12345USA'')]"
    by code_simp
  then show ?thesis by simp
qed

theorem retry_backoff_witness:
  "attempt_outcome failing_server [] (Get_Recipient ''12345USA'') 1 = Throws ''The operation timed out'' \<and>
   attempt_outcome failing_server [] (Get_Recipient ''12345USA'') 2 = Throws ''The operation timed out'' \<and>
   take 5 (snd (Invoke_ExchangeOperation (invoke_cmdlet failing_server (Get_Recipient ''12345USA''))
       ''Check Existing Recipient'' 3 [])) =
     [Invoked (Get_Recipient ''12345USA''), Slept 4,
      Invoked (Get_Recipient ''12345USA''), Slept 6,
      Invoked (Get_Recipient ''12345USA'')]"
proof -
  have allfail: "\<forall>j. 1 \<le> j \<and> j \<le> 2 \<longrightarrow>
      is_throw (attempt_outcome failing_server [] (Get_Recipient ''12345USA'') j)"
    by (simp add: failing_any)
  have n2: "1 \<le> (2::nat)" "int 2 < 3" by simp_all
  from retry_backoff [of 2 3 failing_server "[]" "Get_Recipient ''12345USA''" "''Check Existing Recipient''"]
    allfail n2
  obtain rest where "snd (Invoke_ExchangeOperation (invoke_cmdlet failing_server (Get_Recipient ''12345USA''))
       ''Check Existing Recipient'' 3 []) =
      [] @ failed_attempts (Get_Recipient ''12345USA'') (2 - 1) @
      [Invoked (Get_Recipient ''12345USA''), Slept (2 * (int 2 + 1)), Invoked (Get_Recipient ''12345USA'')] @ rest"
    by blast
  moreover have "failed_attempts (Get_Recipient ''12345USA'') (2 - 1) =
      [Invoked (Get_Recipient ''12345USA''), Slept 4]"
    by simp
  ultimately show ?thesis by (simp add: failing_any)
qed


section \<open>Properties of the reconciliation loop\<close>

lemma process_invalid:
  "Test_DepartmentFormat d = Inl e \<Longrightarrow>
   process_department WhatIf MaxRetries srv st d =
     add_entry \<lparr>Department = d, Status = ''ValidationError'', Error = Some (FormatError e),
                GroupName = None, DisplayName = None, Reason = None\<rparr>
       ((count_department st)\<lparr>stats := (stats (count_department st))
           \<lparr>ValidationErrors := ValidationErrors (stats st) + 1\<rparr>\<rparr>)"
  by (simp add: process_department_def count_department_def)

lemma process_unparsed:
  "Test_DepartmentFormat d = Inr () \<Longrightarrow> Get_DepartmentComponents d = Inl e \<Longrightarrow>
   process_department WhatIf MaxRetries srv st d =
     add_entry \<lparr>Department = d, Status = ''ParsingError'', Error = Some (ParseError e),
                GroupName = None, DisplayName = None, Reason = None\<rparr>
       ((count_department st)\<lparr>stats := (stats (count_department st))
           \<lparr>ValidationErrors := ValidationErrors (stats st) + 1\<rparr>\<rparr>)"
  by (simp add: process_department_def count_department_def)

lemma process_parsed:
  "Test_DepartmentFormat d = Inr () \<Longrightarrow> Get_DepartmentComponents d = Inr cmp \<Longrightarrow>
   process_department WhatIf MaxRetries srv st d =
     (if WhatIf then count_department st
      else reconcile MaxRetries srv (count_department st) d (groupName_of cmp) (displayName_of cmp)
             (New_RecipientFilter (Number cmp) (CountryCode cmp)))"
  by (simp add: process_department_def count_department_def)

lemma process_cases:
  obtains (invalid) e where "Test_DepartmentFormat d = Inl e"
  | (unparsed) e where "Test_DepartmentFormat d = Inr ()" "Get_DepartmentComponents d = Inl e"
  | (parsed) cmp where "Test_DepartmentFormat d = Inr ()" "Get_DepartmentComponents d = Inr cmp"
proof (cases "Test_DepartmentFormat d")
  case (Inl e)
  then show ?thesis by (rule invalid)
next
  case (Inr u)
  then have v: "Test_DepartmentFormat d = Inr ()" by simp
  show ?thesis
  proof (cases "Get_DepartmentComponents d")
    case (Inl e)
    with v show ?thesis by (rule unparsed)
  next
    case (Inr cmp)
    with v show ?thesis by (rule parsed)
  qed
qed

lemma reconcile_stats:
  "one_bucket_incremented (stats st) (stats (reconcile MaxRetries srv st d g dn f)) \<and>
   TotalProcessed (stats (reconcile MaxRetries srv st d g dn f)) = TotalProcessed (stats st)"
  by (simp add: reconcile_def Let_def add_entry_def one_bucket_incremented_def
      split: prod.splits option.splits)

lemma invoke_trace:
  assumes "Invoke_ExchangeOperation (invoke_cmdlet srv c) name MaxRetries w = (res, w')"
  shows "\<exists>ext. w' = w @ ext \<and> (\<forall>e\<in>set ext. e = Invoked c \<or> (\<exists>n. e = Slept n))"
proof -
  from retry_loop_trace [of srv c MaxRetries 1 w]
  obtain ext where "snd (retry_loop (invoke_cmdlet srv c) MaxRetries 1 w) = w @ ext"
    and "\<forall>e\<in>set ext. e = Invoked c \<or> (\<exists>n. e = Slept n)"
    by blast
  with assms show ?thesis by (auto simp: Invoke_ExchangeOperation_def)
qed

lemma lookups_do_not_mutate:
  assumes "Invoke_ExchangeOperation (invoke_cmdlet srv (Get_Recipient g)) n1 m1 w = (res1, w1)"
    and "Invoke_ExchangeOperation (invoke_cmdlet srv (Get_DynamicDistributionGroup g)) n2 m2 w1 = (res2, w2)"
  shows "\<exists>ext. w2 = w @ ext \<and> \<not> list_ex is_mutation ext"
proof -
  from invoke_trace [OF assms(1)] obtain e1 where e1: "w1 = w @ e1"
    and o1: "\<forall>e\<in>set e1. e = Invoked (Get_Recipient g) \<or> (\<exists>n. e = Slept n)" by blast
  from invoke_trace [OF assms(2)] obtain e2 where e2: "w2 = w1 @ e2"
    and o2: "\<forall>e\<in>set e2. e = Invoked (Get_DynamicDistributionGroup g) \<or> (\<exists>n. e = Slept n)" by blast
  from o1 have "\<forall>e\<in>set e1. \<not> is_mutation e" by auto
  moreover from o2 have "\<forall>e\<in>set e2. \<not> is_mutation e" by auto
  ultimately have "\<not> list_ex is_mutation (e1 @ e2)" by (auto simp: list_ex_iff)
  with e1 e2 show ?thesis by simp
qed

lemma world_count_department: "world (count_department st) = world st"
  by (simp add: count_department_def)

text \<open>
  C5. Skip behaviour. For a department that passes validation and parsing and is
  reconciled (\<open>-WhatIf\<close> is off), if the lookup
  of any recipient with the derived group name returns an object and the lookup of a
  dynamic distribution group with that name returns none, then the pass records the
  outcome "Skipped" with the reason "Exists as" followed by the recipient type of the
  object found, increments \<open>Skipped\<close>, and adds to the trace only the two lookups and their
  sleeps: no create and no update is invoked. The script has no cmdlet that deletes.
\<close>

theorem skip_occupied_name:
  "Test_DepartmentFormat d = Inr () \<and> Get_DepartmentComponents d = Inr cmp \<and>
   Invoke_ExchangeOperation (invoke_cmdlet srv (Get_Recipient (groupName_of cmp)))
     ''Check Existing Recipient'' 2 (world st) = (res1, w1) \<and>
   Result_of res1 = Some found \<and>
   Invoke_ExchangeOperation (invoke_cmdlet srv (Get_DynamicDistributionGroup (groupName_of cmp)))
     ''Check Existing DDG'' 2 w1 = (res2, w2) \<and>
   Result_of res2 = None \<longrightarrow>
   process_department False MaxRetries srv st d =
     \<lparr>stats = (stats st)\<lparr>Skipped := Skipped (stats st) + 1,
                          TotalProcessed := TotalProcessed (stats st) + 1\<rparr>,
      processedDepartments = processedDepartments st @
        [\<lparr>Department = d, Status = ''Skipped'', Error = None, GroupName = None,
          DisplayName = None, Reason = Some (''Exists as '' @ RecipientTypeDetails found)\<rparr>],
      world = w2\<rparr> \<and>
   (\<exists>ext. w2 = world st @ ext \<and> \<not> list_ex is_mutation ext)"
proof
  assume h: "Test_DepartmentFormat d = Inr () \<and> Get_DepartmentComponents d = Inr cmp \<and>
   Invoke_ExchangeOperation (invoke_cmdlet srv (Get_Recipient (groupName_of cmp)))
     ''Check Existing Recipient'' 2 (world st) = (res1, w1) \<and>
   Result_of res1 = Some found \<and>
   Invoke_ExchangeOperation (invoke_cmdlet srv (Get_DynamicDistributionGroup (groupName_of cmp)))
     ''Check Existing DDG'' 2 w1 = (res2, w2) \<and>
   Result_of res2 = None"
  then have valid: "Test_DepartmentFormat d = Inr ()" and parsed: "Get_DepartmentComponents d = Inr cmp"
    and l1: "Invoke_ExchangeOperation (invoke_cmdlet srv (Get_Recipient (groupName_of cmp)))
     ''Check Existing Recipient'' 2 (world st) = (res1, w1)"
    and r1: "Result_of res1 = Some found"
    and l2: "Invoke_ExchangeOperation (invoke_cmdlet srv (Get_DynamicDistributionGroup (groupName_of cmp)))
     ''Check Existing DDG'' 2 w1 = (res2, w2)"
    and r2: "Result_of res2 = None"
    by simp_all
  from l1 r1 l2 r2 have "reconcile MaxRetries srv (count_department st) d (groupName_of cmp)
      (displayName_of cmp) (New_RecipientFilter (Number cmp) (CountryCode cmp)) =
     \<lparr>stats = (stats st)\<lparr>Skipped := Skipped (stats st) + 1,
                          TotalProcessed := TotalProcessed (stats st) + 1\<rparr>,
      processedDepartments = processedDepartments st @
        [\<lparr>Department = d, Status = ''Skipped'', Error = None, GroupName = None,
          DisplayName = None, Reason = Some (''Exists as '' @ RecipientTypeDetails found)\<rparr>],
      world = w2\<rparr>"
    by (simp add: reconcile_def world_count_department) (simp add: count_department_def add_entry_def)
  with process_parsed [OF valid parsed, of False MaxRetries srv st]
  have "process_department False MaxRetries srv st d =
     \<lparr>stats = (stats st)\<lparr>Skipped := Skipped (stats st) + 1,
                          TotalProcessed := TotalProcessed (stats st) + 1\<rparr>,
      processedDepartments = processedDepartments st @
        [\<lparr>Department = d, Status = ''Skipped'', Error = None, GroupName = None,
          DisplayName = None, Reason = Some (''Exists as '' @ RecipientTypeDetails found)\<rparr>],
      world = w2\<rparr>"
    by simp
  with lookups_do_not_mutate [OF l1 l2]
  show "process_department False MaxRetries srv st d =
     \<lparr>stats = (stats st)\<lparr>Skipped := Skipped (stats st) + 1,
                          TotalProcessed := TotalProcessed (stats st) + 1\<rparr>,
      processedDepartments = processedDepartments st @
        [\<lparr>Department = d, Status = ''Skipped'', Error = None, GroupName = None,
          DisplayName = None, Reason = Some (''Exists as '' @ RecipientTypeDetails found)\<rparr>],
      world = w2\<rparr> \<and>
   (\<exists>ext. w2 = world st @ ext \<and> \<not> list_ex is_mutation ext)"
    by blast
qed

text \<open>
  C7, as amended. Under \<open>-WhatIf\<close>, a department that passes validation and parsing
  leaves the run as it was but for \<open>TotalProcessed\<close>, which is incremented: no entry is
  added to \<open>$processedDepartments\<close>, no outcome counter changes, and the trace is
  unchanged, so no cmdlet at all is invoked, neither a lookup nor a create or an update.
\<close>

theorem whatif_gate:
  "Test_DepartmentFormat d = Inr () \<and> Get_DepartmentComponents d = Inr cmp \<longrightarrow>
   process_department True MaxRetries srv st d =
     st\<lparr>stats := (stats st)\<lparr>TotalProcessed := TotalProcessed (stats st) + 1\<rparr>\<rparr>"
  by (simp add: process_parsed count_department_def)

theorem skip_occupied_name_witness:
  "Test_DepartmentFormat ''12345 Finance - USA'' = Inr () \<and>
   Get_DepartmentComponents ''12345 Finance - USA'' =
     Inr \<lparr>Number = ''12345'', Name = ''Financ'', CountryCode = ''USA''\<rparr> \<and>
   Invoke_ExchangeOperation (invoke_cmdlet mailbox_directory (Get_Recipient ''12345USA''))
     ''Check Existing Recipient'' 2 [] =
     (Some (Succeeded (Some \<lparr>RecipientTypeDetails = ''UserMailbox''\<rparr>)),
      [Invoked (Get_Recipient ''12345USA'')]) \<and>
   Invoke_ExchangeOperation (invoke_cmdlet mailbox_directory (Get_DynamicDistributionGroup ''12345USA''))
     ''Check Existing DDG'' 2 [Invoked (Get_Recipient ''12345USA'')] =
     (Some (Succeeded None),
      [Invoked (Get_Recipient ''12345USA''), Invoked (Get_DynamicDistributionGroup ''12345USA'')]) \<and>
   process_department False 3 mailbox_directory initial_run ''12345 Finance - USA'' =
     \<lparr>stats = \<lparr>Created = 0, Updated = 0, Skipped = 1, ValidationErrors = 0,
               ProcessingErrors = 0, TotalProcessed = 1\<rparr>,
      processedDepartments =
        [\<lparr>Department = ''12345 Finance - USA'', Status = ''Skipped'', Error = None,
          GroupName = None, DisplayName = None, Reason = Some ''Exists as UserMailbox''\<rparr>],
      world = [Invoked (Get_Recipient ''12345USA''),
               Invoked (Get_DynamicDistributionGroup ''12345USA'')]\<rparr> \<and>
   \<not> list_ex is_mutation
     [Invoked (Get_Recipient ''12345USA''), Invoked (Get_DynamicDistributionGroup ''12345USA'')]"
proof -
  have g: "groupName_of \<lparr>Number = ''12345'', Name = ''Financ'', CountryCode = ''USA''\<rparr> = ''12345USA''"
    by (simp add: groupName_of_def)
  have w0: "world initial_run = []" by (simp add: initial_run_def)
  have l1: "Invoke_ExchangeOperation (invoke_cmdlet mailbox_directory (Get_Recipient ''12345USA''))
     ''Check Existing Recipient'' 2 [] =
     (Some (Succeeded (Some \<lparr>RecipientTypeDetails = ''UserMailbox''\<rparr>)),
      [Invoked (Get_Recipient ''12345USA'')])"
    by code_simp
  have l2: "Invoke_ExchangeOperation (invoke_cmdlet mailbox_directory (Get_DynamicDistributionGroup ''12345USA''))
     ''Check Existing DDG'' 2 [Invoked (Get_Recipient ''12345USA'')] =
     (Some (Succeeded None),
      [Invoked (Get_Recipient ''12345USA''), Invoked (Get_DynamicDistributionGroup ''12345USA'')])"
    by code_simp
  from skip_occupied_name [of "''12345 Finance - USA''"
      "\<lparr>Number = ''12345'', Name = ''Financ'', CountryCode = ''USA''\<rparr>" mailbox_directory initial_run
      "Some (Succeeded (Some \<lparr>RecipientTypeDetails = ''UserMailbox''\<rparr>))"
      "[Invoked (Get_Recipient ''12345USA'')]" "\<lparr>RecipientTypeDetails = ''UserMailbox''\<rparr>"
      "Some (Succeeded None)"
      "[Invoked (Get_Recipient ''12345USA''), Invoked (Get_DynamicDistributionGroup ''12345USA'')]" 3]
    valid_Finance parse_Finance l1 l2
  have "process_department False 3 mailbox_directory initial_run ''12345 Finance - USA'' =
     \<lparr>stats = (stats initial_run)\<lparr>Skipped := Skipped (stats initial_run) + 1,
                          TotalProcessed := TotalProcessed (stats initial_run) + 1\<rparr>,
      processedDepartments = processedDepartments initial_run @
        [\<lparr>Department = ''12345 Finance - USA'', Status = ''Skipped'', Error = None, GroupName = None,
          DisplayName = None,
          Reason = Some (''Exists as '' @ RecipientTypeDetails \<lparr>RecipientTypeDetails = ''UserMailbox''\<rparr>)\<rparr>],
      world = [Invoked (Get_Recipient ''12345USA''), Invoked (Get_DynamicDistributionGroup ''12345USA'')]\<rparr>"
    by (simp add: g w0)
  with valid_Finance parse_Finance l1 l2 show ?thesis
    by (simp add: initial_run_def)
qed

theorem whatif_gate_witness:
  "Test_DepartmentFormat ''12345 Finance - USA'' = Inr () \<and>
   Get_DepartmentComponents ''12345 Finance - USA'' =
     Inr \<lparr>Number = ''12345'', Name = ''Financ'', CountryCode = ''USA''\<rparr> \<and>
   process_department True 3 empty_directory initial_run ''12345 Finance - USA'' =
     \<lparr>stats = \<lparr>Created = 0, Updated = 0, Skipped = 0, ValidationErrors = 0,
               ProcessingErrors = 0, TotalProcessed = 1\<rparr>,
      processedDepartments = [], world = []\<rparr>"
  using whatif_gate [of "''12345 Finance - USA''"
      "\<lparr>Number = ''12345'', Name = ''Financ'', CountryCode = ''USA''\<rparr>" 3 empty_directory initial_run]
    valid_Finance parse_Finance
  by (simp add: initial_run_def)

lemma process_total: 
  "TotalProcessed (stats (process_department WhatIf MaxRetries srv st d)) = TotalProcessed (stats st) + 1"
proof (cases d rule: process_cases)
  case (invalid e)
  then show ?thesis by (simp add: process_invalid add_entry_def count_department_def)
next
  case (unparsed e)
  then show ?thesis by (simp add: process_unparsed add_entry_def count_department_def)
next
  case (parsed cmp)
  then show ?thesis by (simp add: process_parsed reconcile_stats) (simp add: count_department_def)
qed

lemma process_one_bucket:
  assumes "\<not> WhatIf \<or> Test_DepartmentFormat d \<noteq> Inr () \<or> (\<exists>e. Get_DepartmentComponents d = Inl e)"
  shows "one_bucket_incremented (stats st) (stats (process_department WhatIf MaxRetries srv st d))"
proof (cases d rule: process_cases)
  case (invalid e)
  then show ?thesis
    by (simp add: process_invalid add_entry_def count_department_def one_bucket_incremented_def)
next
  case (unparsed e)
  then show ?thesis
    by (simp add: process_unparsed add_entry_def count_department_def one_bucket_incremented_def)
next
  case (parsed cmp)
  with assms have off: "\<not> WhatIf" by simp
  have "one_bucket_incremented (stats (count_department st))
      (stats (reconcile MaxRetries srv (count_department st) d (groupName_of cmp) (displayName_of cmp)
         (New_RecipientFilter (Number cmp) (CountryCode cmp))))"
    using reconcile_stats by blast
  then have "one_bucket_incremented (stats st)
      (stats (reconcile MaxRetries srv (count_department st) d (groupName_of cmp) (displayName_of cmp)
         (New_RecipientFilter (Number cmp) (CountryCode cmp))))"
    by (simp add: one_bucket_incremented_def count_department_def)
  with parsed off show ?thesis by (simp add: process_parsed)
qed

lemma one_bucket_sum: "one_bucket_incremented s s' \<Longrightarrow> bucket_sum s' = bucket_sum s + 1"
  by (auto simp: one_bucket_incremented_def bucket_sum_def)

lemma process_departments_sum:
  "bucket_sum (stats st) = TotalProcessed (stats st) \<Longrightarrow>
   bucket_sum (stats (process_departments False MaxRetries srv st depts)) =
     TotalProcessed (stats (process_departments False MaxRetries srv st depts))"
proof (induction depts arbitrary: st)
  case Nil
  then show ?case by (simp add: process_departments_def)
next
  case (Cons d depts)
  have "one_bucket_incremented (stats st) (stats (process_department False MaxRetries srv st d))"
    by (rule process_one_bucket) simp
  from one_bucket_sum [OF this] Cons.prems
  have "bucket_sum (stats (process_department False MaxRetries srv st d)) =
      TotalProcessed (stats (process_department False MaxRetries srv st d))"
    by (simp add: process_total)
  from Cons.IH [OF this] show ?case by (simp add: process_departments_def)
qed

text \<open>
  C3. When \<open>Get-Recipient\<close> throws on both attempts of the existence check, the loop reads
  \<open>.Result\<close> of the failure record, finds \<open>$null\<close>, and takes the branch "Nothing exists
  with this name - safe to create": for "12345 Finance - USA" it invokes
  \<open>New-DynamicDistributionGroup\<close> and records "Created". No lookup error is recorded and the
  department is not skipped.
\<close>

theorem lookup_failure_creates:
  "Invoke_ExchangeOperation (invoke_cmdlet lookup_down_directory (Get_Recipient ''12345USA''))
     ''Check Existing Recipient'' 2 [] =
     (Some (Failed ''The operation timed out''),
      [Invoked (Get_Recipient ''12345USA''), Slept 4, Invoked (Get_Recipient ''12345USA'')]) \<and>
   map Status (processedDepartments
     (process_department False 3 lookup_down_directory initial_run ''12345 Finance - USA'')) =
     [''Created''] \<and>
   world (process_department False 3 lookup_down_directory initial_run ''12345 Finance - USA'') =
     [Invoked (Get_Recipient ''12345USA''), Slept 4, Invoked (Get_Recipient ''12345USA''),
      Invoked (New_DynamicDistributionGroup ''12345USA'' ''12345USA'' ''Financ - USA''
                 (New_RecipientFilter ''12345'' ''USA'') ''MailboxUsers, MailUsers'')] \<and>
   list_ex is_mutation
     (world (process_department False 3 lookup_down_directory initial_run ''12345 Finance - USA''))"
  by code_simp

text \<open>
  Under \<open>-WhatIf\<close> the department "12345 Finance - USA" passes validation and parsing, and
  the pass records no outcome for it: the list of entries stays empty and the five
  outcome counters stay 0.
\<close>

theorem whatif_records_nothing:
  "Test_DepartmentFormat ''12345 Finance - USA'' = Inr () \<and>
   Get_DepartmentComponents ''12345 Finance - USA'' =
     Inr \<lparr>Number = ''12345'', Name = ''Financ'', CountryCode = ''USA''\<rparr> \<and>
   processedDepartments (process_department True 3 empty_directory initial_run ''12345 Finance - USA'') = [] \<and>
   stats (process_department True 3 empty_directory initial_run ''12345 Finance - USA'') =
     \<lparr>Created = 0, Updated = 0, Skipped = 0, ValidationErrors = 0, ProcessingErrors = 0,
      TotalProcessed = 1\<rparr>"
  by code_simp

text \<open>
  Under \<open>-WhatIf\<close> the same department increments \<open>TotalProcessed\<close> and none of the five
  outcome counters, so their sum is 0 while \<open>TotalProcessed\<close> is 1.
\<close>

theorem whatif_breaks_bucket_sum:
  "TotalProcessed (stats (process_department True 3 empty_directory initial_run ''12345 Finance - USA'')) = 1 \<and>
   bucket_sum (stats (process_department True 3 empty_directory initial_run ''12345 Finance - USA'')) = 0 \<and>
   \<not> one_bucket_incremented (stats initial_run)
      (stats (process_department True 3 empty_directory initial_run ''12345 Finance - USA''))"
  by code_simp


section \<open>Properties of the counters and the report\<close>














text \<open>
  C8, as amended. Every pass of the loop increments \<open>TotalProcessed\<close> by exactly one. When
  \<open>-WhatIf\<close> is off, or the department fails validation or parsing, exactly one of the
  counters \<open>Created\<close>, \<open>Updated\<close>, \<open>Skipped\<close>, \<open>ValidationErrors\<close>, \<open>ProcessingErrors\<close> is
  incremented by exactly one and the others are unchanged. So with \<open>-WhatIf\<close> off the sum
  of the five counters equals \<open>TotalProcessed\<close> after each department, and at the end of
  the loop.
\<close>

theorem one_bucket_per_department:
  "TotalProcessed (stats (process_department WhatIf MaxRetries srv st d)) =
     TotalProcessed (stats st) + 1 \<and>
   (\<not> WhatIf \<or> Test_DepartmentFormat d \<noteq> Inr () \<or> (\<exists>e. Get_DepartmentComponents d = Inl e) \<longrightarrow>
      one_bucket_incremented (stats st) (stats (process_department WhatIf MaxRetries srv st d))) \<and>
   (bucket_sum (stats st) = TotalProcessed (stats st) \<longrightarrow>
      bucket_sum (stats (process_department False MaxRetries srv st d)) =
        TotalProcessed (stats (process_department False MaxRetries srv st d))) \<and>
   bucket_sum (stats (process_departments False MaxRetries srv initial_run depts)) =
     TotalProcessed (stats (process_departments False MaxRetries srv initial_run depts))"
proof (intro conjI impI)
  show "TotalProcessed (stats (process_department WhatIf MaxRetries srv st d)) =
     TotalProcessed (stats st) + 1"
    by (rule process_total)
next
  assume "\<not> WhatIf \<or> Test_DepartmentFormat d \<noteq> Inr () \<or> (\<exists>e. Get_DepartmentComponents d = Inl e)"
  then show "one_bucket_incremented (stats st) (stats (process_department WhatIf MaxRetries srv st d))"
    by (rule process_one_bucket)
next
  assume "bucket_sum (stats st) = TotalProcessed (stats st)"
  from process_departments_sum [OF this, of MaxRetries srv "[d]"]
  show "bucket_sum (stats (process_department False MaxRetries srv st d)) =
        TotalProcessed (stats (process_department False MaxRetries srv st d))"
    by (simp add: process_departments_def)
next
  have "bucket_sum (stats initial_run) = TotalProcessed (stats initial_run)"
    by (simp add: initial_run_def bucket_sum_def)
  then show "bucket_sum (stats (process_departments False MaxRetries srv initial_run depts)) =
     TotalProcessed (stats (process_departments False MaxRetries srv initial_run depts))"
    by (rule process_departments_sum)
qed

theorem one_bucket_per_department_witness:
  "stats (process_department False 3 empty_directory initial_run ''12345 Finance - USA'') =
     \<lparr>Created = 1, Updated = 0, Skipped = 0, ValidationErrors = 0, ProcessingErrors = 0,
      TotalProcessed = 1\<rparr> \<and>
   one_bucket_incremented (stats initial_run)
     (stats (process_department False 3 empty_directory initial_run ''12345 Finance - USA'')) \<and>
   Get_DepartmentComponents ''12345 X - ABC'' = Inl EmptyDepartmentName \<and>
   one_bucket_incremented (stats initial_run)
     (stats (process_department True 3 empty_directory initial_run ''12345 X - ABC'')) \<and>
   bucket_sum (stats initial_run) = TotalProcessed (stats initial_run) \<and>
   bucket_sum (stats (process_department False 3 empty_directory initial_run ''12345 Finance - USA'')) =
     TotalProcessed (stats (process_department False 3 empty_directory initial_run ''12345 Finance - USA''))"
proof -
  have s: "stats (process_department False 3 empty_directory initial_run ''12345 Finance - USA'') =
     \<lparr>Created = 1, Updated = 0, Skipped = 0, ValidationErrors = 0, ProcessingErrors = 0,
      TotalProcessed = 1\<rparr>"
    by code_simp
  have x: "Get_DepartmentComponents ''12345 X - ABC'' = Inl EmptyDepartmentName"
    by code_simp
  have i: "bucket_sum (stats initial_run) = TotalProcessed (stats initial_run)"
    by (simp add: initial_run_def bucket_sum_def)
  from one_bucket_per_department [of False 3 empty_directory initial_run "''12345 Finance - USA''" "[]"] i
  have a: "one_bucket_incremented (stats initial_run)
     (stats (process_department False 3 empty_directory initial_run ''12345 Finance - USA'')) \<and>
     bucket_sum (stats (process_department False 3 empty_directory initial_run ''12345 Finance - USA'')) =
     TotalProcessed (stats (process_department False 3 empty_directory initial_run ''12345 Finance - USA''))"
    by blast
  from one_bucket_per_department [of True 3 empty_directory initial_run "''12345 X - ABC''" "[]"] x
  have b: "one_bucket_incremented (stats initial_run)
     (stats (process_department True 3 empty_directory initial_run ''12345 X - ABC''))"
    by blast
  from s x i a b show ?thesis by blast
qed



end
